theory Spec2Isabelle
  imports Main "HOL-Library.Sublist"
begin

section \<open>Data model\<close>

text \<open>
  The schema of \<^verbatim>\<open>src/schema/index.ts\<close> and the epoch accumulator of
  \<^verbatim>\<open>src/schema/epochs.ts\<close> talk to one upstream collaborator, \<^verbatim>\<open>suiClient\<close>.
  Its entity types are declared in the SDK, not in the repository, so each entity is a
  record of the fields the schema reads (the identifying field first) and a few others,
  which keep two entities with the same identifying field distinguishable.  Field names
  that several entity types share (\<^verbatim>\<open>digest\<close>), or that clash with a constant of HOL
  (\<^verbatim>\<open>id\<close>), carry the type as a prefix.

  A JavaScript \<^verbatim>\<open>Error\<close> is a value \<open>Error msg\<close>.  A promise that rejects, or a
  function that throws, is \<open>Inl\<close> of the error; a value is \<open>Inr\<close>.
\<close>

datatype error = Error string

record Checkpoint =
  cp_digest :: string
  sequenceNumber :: string
  cp_epoch :: string

record TransactionBlock =
  txb_digest :: string
  txb_checkpoint :: "string option"
  timestampMs :: "string option"

record SuiObjectData =
  objectId :: string
  version :: string
  obj_digest :: string

record SuiObjectResponse =
  data :: "SuiObjectData option"

record EventId =
  eventSeq :: string
  txDigest :: string

record SuiEvent =
  ev_id :: EventId
  packageId :: string
  sender :: string

record EpochInfo =
  epoch :: string
  epochStartTimestamp :: string

record SuiMoveNormalizedModule =
  address :: string
  name :: string
  fileFormatVersion :: int

text \<open>A page of an upstream list call: \<^verbatim>\<open>{ data, nextCursor, hasNextPage }\<close>.\<close>

record 'a page =
  page_data :: "'a list"
  nextCursor :: "string option"
  hasNextPage :: bool

subsection \<open>Upstream requests\<close>

text \<open>
  The arguments of every upstream call the modelled code issues.  An optional property
  that the code leaves out of the argument object is \<open>None\<close>.  Each modelled function
  returns the list of the requests it has issued, in order, next to its result, so that
  the number of upstream calls is a value of the model.
\<close>

datatype SortOrder = ascending | descending

datatype TransactionFilter =
  FilterCheckpoint string
  | FromOrToAddress string
  | ToAddress string

record GetCheckpointsParams =
  descendingOrder :: bool
  gc_limit :: int
  gc_cursor :: "string option"

record QueryTransactionBlocksParams =
  qt_filter :: "TransactionFilter option"
  qt_limit :: "int option"
  qt_cursor :: "string option"
  qt_order :: "SortOrder option"

record QueryEventsParams =
  qe_limit :: "int option"
  qe_cursor :: "EventId option"
  qe_order :: "SortOrder option"

datatype rpc =
  GetCheckpoints GetCheckpointsParams
  | QueryTransactionBlocks QueryTransactionBlocksParams
  | QueryEvents QueryEventsParams
  | GetOwnedObjects string
  | GetCheckpoint string
  | MultiGetTransactionBlocks "string list"
  | MultiGetObjects "string list"
  | GetNormalizedMoveModule "string option" "string option"
  | GetEpochs "string option"

section \<open>Entity loaders\<close>

text \<open>
  \<^verbatim>\<open>Promise.all\<close> over the promises of \<^verbatim>\<open>keys.map(...)\<close>: every promise has been
  created (every upstream call issued) before \<^verbatim>\<open>Promise.all\<close> runs; the result is the
  list of values when all fulfil and a rejection when one rejects.  When several reject,
  JavaScript keeps the one that rejects first in time; the model keeps the first in list
  order.
\<close>

fun Promise_all :: "(error + 'a) list \<Rightarrow> error + 'a list" where
  "Promise_all [] = Inr []"
| "Promise_all (Inl e # ps) = Inl e"
| "Promise_all (Inr v # ps) = (case Promise_all ps of Inl e \<Rightarrow> Inl e | Inr vs \<Rightarrow> Inr (v # vs))"

text \<open>
  \<^verbatim>\<open>Checkpoint.load\<close>:
  \<^verbatim>\<open>(keys) => Promise.all(keys.map((id) => suiClient.getCheckpoint({ id })))\<close>.
\<close>

definition Checkpoint_load ::
  "(string \<Rightarrow> error + Checkpoint) \<Rightarrow> string list \<Rightarrow> rpc list \<times> (error + (error + Checkpoint) list)" where
  "Checkpoint_load getCheckpoint keys =
     (map GetCheckpoint keys,
      case Promise_all (map getCheckpoint keys) of
        Inl e \<Rightarrow> Inl e
      | Inr cps \<Rightarrow> Inr (map Inr cps))"

text \<open>
  \<^verbatim>\<open>TransactionBlock.load\<close>: one \<^verbatim>\<open>multiGetTransactionBlocks({ digests: keys, options })\<close>
  (the options are a constant of the code), then
  \<^verbatim>\<open>keys.map((digest) => result.find((txb) => txb.digest === digest) ?? new Error(...))\<close>.
\<close>

definition TransactionBlock_not_found :: "string \<Rightarrow> error" where
  "TransactionBlock_not_found digest = Error (''TransactionBlock '' @ digest @ '' not found'')"

text \<open>The callback of \<^verbatim>\<open>keys.map\<close>, closed over \<^verbatim>\<open>result\<close>.\<close>

definition TransactionBlock_item :: "TransactionBlock list \<Rightarrow> string \<Rightarrow> error + TransactionBlock" where
  "TransactionBlock_item result digest =
     (case find (\<lambda>txb. txb_digest txb = digest) result of
        Some txb \<Rightarrow> Inr txb
      | None \<Rightarrow> Inl (TransactionBlock_not_found digest))"

definition TransactionBlock_load ::
  "(string list \<Rightarrow> error + TransactionBlock list) \<Rightarrow> string list
     \<Rightarrow> rpc list \<times> (error + (error + TransactionBlock) list)" where
  "TransactionBlock_load multiGetTransactionBlocks keys =
     ([MultiGetTransactionBlocks keys],
      case multiGetTransactionBlocks keys of
        Inl e \<Rightarrow> Inl e
      | Inr result \<Rightarrow> Inr (map (TransactionBlock_item result) keys))"

text \<open>
  \<^verbatim>\<open>ObjectRef.load\<close>: one \<^verbatim>\<open>multiGetObjects({ ids: keys })\<close>, each response mapped to
  its \<^verbatim>\<open>data\<close> (which may be null), then
  \<^verbatim>\<open>keys.map((id) => result.find((obj) => obj?.objectId === id) ?? new Error(...))\<close>.
  \<^verbatim>\<open>find\<close> gives \<^verbatim>\<open>undefined\<close> when nothing matches, and \<^verbatim>\<open>??\<close> replaces a null or
  undefined left operand.  \<open>Object_item\<close> is the callback of \<^verbatim>\<open>keys.map\<close>.
\<close>

definition Object_not_found :: "string \<Rightarrow> error" where
  "Object_not_found k = Error (''Object '' @ k @ '' not found'')"

definition Object_item :: "SuiObjectData option list \<Rightarrow> string \<Rightarrow> error + SuiObjectData" where
  "Object_item result k =
     (case find (\<lambda>obj. case obj of None \<Rightarrow> False | Some d \<Rightarrow> objectId d = k) result of
        Some (Some d) \<Rightarrow> Inr d
      | _ \<Rightarrow> Inl (Object_not_found k))"

definition ObjectRef_load ::
  "(string list \<Rightarrow> error + SuiObjectResponse list) \<Rightarrow> string list
     \<Rightarrow> rpc list \<times> (error + (error + SuiObjectData) list)" where
  "ObjectRef_load multiGetObjects keys =
     ([MultiGetObjects keys],
      case multiGetObjects keys of
        Inl e \<Rightarrow> Inl e
      | Inr responses \<Rightarrow>
          (let result = map data responses in Inr (map (Object_item result) keys)))"

text \<open>
  \<^verbatim>\<open>MoveModule.load\<close>: per key, \<^verbatim>\<open>getNormalizedMoveModule({ package: key.split(',')[0],
  module: key.split(',')[1] })\<close>, under \<^verbatim>\<open>Promise.all\<close>.  \<^verbatim>\<open>split\<close> cuts at every comma
  and always has a first part; a part that is not there is \<^verbatim>\<open>undefined\<close>.
\<close>

fun split_comma :: "string \<Rightarrow> string list" where
  "split_comma [] = [[]]"
| "split_comma (c # cs) =
     (if c = CHR '','' then [] # split_comma cs
      else (case split_comma cs of
              [] \<Rightarrow> [[c]]
            | p # ps \<Rightarrow> (c # p) # ps))"

definition at_index :: "'a list \<Rightarrow> nat \<Rightarrow> 'a option" where
  "at_index xs i = (if i < length xs then Some (xs ! i) else None)"

definition MoveModule_request :: "string \<Rightarrow> rpc" where
  "MoveModule_request key =
     GetNormalizedMoveModule (at_index (split_comma key) 0) (at_index (split_comma key) 1)"

definition MoveModule_load ::
  "(string option \<Rightarrow> string option \<Rightarrow> error + SuiMoveNormalizedModule) \<Rightarrow> string list
     \<Rightarrow> rpc list \<times> (error + (error + SuiMoveNormalizedModule) list)" where
  "MoveModule_load getNormalizedMoveModule keys =
     (map MoveModule_request keys,
      case Promise_all (map (\<lambda>key. getNormalizedMoveModule (at_index (split_comma key) 0)
                                       (at_index (split_comma key) 1)) keys) of
        Inl e \<Rightarrow> Inl e
      | Inr mods \<Rightarrow> Inr (map Inr mods))"

section \<open>Connection resolvers\<close>

text \<open>
  Every connection field calls \<^verbatim>\<open>resolveCursorConnection({ args, toCursor }, fetch)\<close> of
  the relay plugin.  The plugin is not part of the repository; what the repository
  supplies, and what is modelled here, is the cursor function and the \<^verbatim>\<open>fetch\<close>
  callback of each field.  The plugin hands the callback the record below.
\<close>

record ResolveCursorConnectionArgs =
  before :: "string option"
  after :: "string option"
  inverted :: bool
  limit :: int

text \<open>\<^verbatim>\<open>if (before)\<close>: an absent cursor and the empty string are falsy.\<close>

definition truthy :: "string option \<Rightarrow> bool" where
  "truthy v = (case v of None \<Rightarrow> False | Some str \<Rightarrow> str \<noteq> [])"

definition backwards_error :: error where
  "backwards_error = Error ''backwards pagination not implemented''"

subsection \<open>Cursor functions\<close>

definition Checkpoint_toCursor :: "Checkpoint \<Rightarrow> string" where
  "Checkpoint_toCursor d = sequenceNumber d"

definition TransactionBlock_toCursor :: "TransactionBlock \<Rightarrow> string" where
  "TransactionBlock_toCursor d = txb_digest d"

text \<open>The template literal \<^verbatim>\<open>`${data.id.eventSeq},${data.id.txDigest}`\<close>.\<close>

definition Event_toCursor :: "SuiEvent \<Rightarrow> string" where
  "Event_toCursor d = eventSeq (ev_id d) @ '','' @ txDigest (ev_id d)"

definition Object_toCursor :: "SuiObjectData \<Rightarrow> string" where
  "Object_toCursor obj = objectId obj"

subsection \<open>Fetch callbacks\<close>

text \<open>\<^verbatim>\<open>Query.checkpointConnection\<close>.\<close>

definition checkpointConnection_fetch ::
  "(GetCheckpointsParams \<Rightarrow> error + Checkpoint page) \<Rightarrow> ResolveCursorConnectionArgs
     \<Rightarrow> rpc list \<times> (error + Checkpoint list)" where
  "checkpointConnection_fetch getCheckpoints a =
     (if truthy (before a) then ([], Inl backwards_error)
      else
        (let req = \<lparr>descendingOrder = \<not> inverted a, gc_limit = limit a, gc_cursor = after a\<rparr> in
         ([GetCheckpoints req],
          case getCheckpoints req of Inl e \<Rightarrow> Inl e | Inr pg \<Rightarrow> Inr (page_data pg))))"

text \<open>\<^verbatim>\<open>Epoch.checkpointsConnection\<close>: the same callback (the epoch is not used).\<close>

definition Epoch_checkpointsConnection_fetch ::
  "(GetCheckpointsParams \<Rightarrow> error + Checkpoint page) \<Rightarrow> ResolveCursorConnectionArgs
     \<Rightarrow> rpc list \<times> (error + Checkpoint list)" where
  "Epoch_checkpointsConnection_fetch getCheckpoints a =
     (if truthy (before a) then ([], Inl backwards_error)
      else
        (let req = \<lparr>descendingOrder = \<not> inverted a, gc_limit = limit a, gc_cursor = after a\<rparr> in
         ([GetCheckpoints req],
          case getCheckpoints req of Inl e \<Rightarrow> Inl e | Inr pg \<Rightarrow> Inr (page_data pg))))"

text \<open>
  The callbacks over \<^verbatim>\<open>queryTransactionBlocks\<close> differ in the filter only:
  \<^verbatim>\<open>Query.transactionBlockConnection\<close> and \<^verbatim>\<open>Epoch.transactionBlocksConnection\<close> pass
  none, \<^verbatim>\<open>Checkpoint.transactionsConnection\<close> passes the checkpoint's digest,
  \<^verbatim>\<open>Address.transactionBlockConnection\<close> the address.
\<close>

definition queryTransactionBlocks_fetch ::
  "TransactionFilter option \<Rightarrow> (QueryTransactionBlocksParams \<Rightarrow> error + TransactionBlock page)
     \<Rightarrow> ResolveCursorConnectionArgs \<Rightarrow> rpc list \<times> (error + TransactionBlock list)" where
  "queryTransactionBlocks_fetch flt queryTransactionBlocks a =
     (if truthy (before a) then ([], Inl backwards_error)
      else
        (let req = \<lparr>qt_filter = flt, qt_limit = Some (limit a), qt_cursor = after a,
                    qt_order = Some (if inverted a then descending else ascending)\<rparr> in
         ([QueryTransactionBlocks req],
          case queryTransactionBlocks req of Inl e \<Rightarrow> Inl e | Inr pg \<Rightarrow> Inr (page_data pg))))"

definition transactionBlockConnection_fetch ::
  "(QueryTransactionBlocksParams \<Rightarrow> error + TransactionBlock page)
     \<Rightarrow> ResolveCursorConnectionArgs \<Rightarrow> rpc list \<times> (error + TransactionBlock list)" where
  "transactionBlockConnection_fetch = queryTransactionBlocks_fetch None"

definition Epoch_transactionBlocksConnection_fetch ::
  "(QueryTransactionBlocksParams \<Rightarrow> error + TransactionBlock page)
     \<Rightarrow> ResolveCursorConnectionArgs \<Rightarrow> rpc list \<times> (error + TransactionBlock list)" where
  "Epoch_transactionBlocksConnection_fetch = queryTransactionBlocks_fetch None"

definition Checkpoint_transactionsConnection_fetch ::
  "Checkpoint \<Rightarrow> (QueryTransactionBlocksParams \<Rightarrow> error + TransactionBlock page)
     \<Rightarrow> ResolveCursorConnectionArgs \<Rightarrow> rpc list \<times> (error + TransactionBlock list)" where
  "Checkpoint_transactionsConnection_fetch checkpoint =
     queryTransactionBlocks_fetch (Some (FilterCheckpoint (cp_digest checkpoint)))"

definition Address_transactionBlockConnection_fetch ::
  "string \<Rightarrow> (QueryTransactionBlocksParams \<Rightarrow> error + TransactionBlock page)
     \<Rightarrow> ResolveCursorConnectionArgs \<Rightarrow> rpc list \<times> (error + TransactionBlock list)" where
  "Address_transactionBlockConnection_fetch addr =
     queryTransactionBlocks_fetch (Some (FromOrToAddress addr))"

text \<open>
  \<^verbatim>\<open>Query.eventConnection\<close>: the request carries \<^verbatim>\<open>limit\<close> and the query \<^verbatim>\<open>{ All: [] }\<close>;
  the lines \<^verbatim>\<open>cursor: after\<close> and \<^verbatim>\<open>order: ...\<close> are commented out in the source.
\<close>

definition eventConnection_fetch ::
  "(QueryEventsParams \<Rightarrow> error + SuiEvent page) \<Rightarrow> ResolveCursorConnectionArgs
     \<Rightarrow> rpc list \<times> (error + SuiEvent list)" where
  "eventConnection_fetch queryEvents a =
     (if truthy (before a) then ([], Inl backwards_error)
      else
        (let req = \<lparr>qe_limit = Some (limit a), qe_cursor = None, qe_order = None\<rparr> in
         ([QueryEvents req],
          case queryEvents req of Inl e \<Rightarrow> Inl e | Inr pg \<Rightarrow> Inr (page_data pg))))"

text \<open>
  \<^verbatim>\<open>Object.receivedTransactionBlockConnection\<close>: the callback is \<^verbatim>\<open>async () => ...\<close>; it
  takes no argument and asks for the transactions sent to the object.
\<close>

definition receivedTransactionBlockConnection_fetch ::
  "SuiObjectData \<Rightarrow> (QueryTransactionBlocksParams \<Rightarrow> error + TransactionBlock page)
     \<Rightarrow> ResolveCursorConnectionArgs \<Rightarrow> rpc list \<times> (error + TransactionBlock list)" where
  "receivedTransactionBlockConnection_fetch obj queryTransactionBlocks a =
     (let req = \<lparr>qt_filter = Some (ToAddress (objectId obj)), qt_limit = None, qt_cursor = None,
                 qt_order = None\<rparr> in
      ([QueryTransactionBlocks req],
       case queryTransactionBlocks req of Inl e \<Rightarrow> Inl e | Inr results \<Rightarrow> Inr (page_data results)))"

text \<open>\<^verbatim>\<open>Owner.objectConnection\<close>: another callback without arguments.\<close>

definition Owner_objectConnection_fetch ::
  "string \<Rightarrow> (string \<Rightarrow> error + SuiObjectResponse page) \<Rightarrow> ResolveCursorConnectionArgs
     \<Rightarrow> rpc list \<times> (error + SuiObjectData option list)" where
  "Owner_objectConnection_fetch owner getOwnedObjects a =
     ([GetOwnedObjects owner],
      case getOwnedObjects owner of
        Inl e \<Rightarrow> Inl e
      | Inr results \<Rightarrow> Inr (map data (page_data results)))"

section \<open>The epoch accumulator\<close>

subsection \<open>JavaScript numbers\<close>

text \<open>
  \<^verbatim>\<open>getEpochs\<close> computes with \<^verbatim>\<open>Number.parseInt\<close>, \<^verbatim>\<open>Math.max\<close> and \<^verbatim>\<open>>\<close>.  The
  numbers that arise there are \<^verbatim>\<open>NaN\<close>, \<^verbatim>\<open>-Infinity\<close> (the maximum of no arguments),
  \<^verbatim>\<open>Infinity\<close> (a digit string beyond the range of a double) and the doubles that are
  integers.  \<open>Fin x\<close> is the double whose value is the integer \<open>x\<close>; \<^verbatim>\<open>>\<close> and
  \<^verbatim>\<open>Math.max\<close> on such doubles are the order and the maximum of the integers.
\<close>

datatype jsnum = NaN | NegInfinity | PosInfinity | Fin int

text \<open>\<^verbatim>\<open>a > b\<close>: false whenever an operand is \<^verbatim>\<open>NaN\<close>.\<close>

fun js_gt :: "jsnum \<Rightarrow> jsnum \<Rightarrow> bool" where
  "js_gt NaN _ = False"
| "js_gt _ NaN = False"
| "js_gt (Fin a) (Fin b) = (a > b)"
| "js_gt (Fin a) NegInfinity = True"
| "js_gt PosInfinity PosInfinity = False"
| "js_gt PosInfinity _ = True"
| "js_gt _ _ = False"

text \<open>\<^verbatim>\<open>Math.max\<close> of the listed arguments: \<^verbatim>\<open>NaN\<close> if one of them is, and
  \<^verbatim>\<open>-Infinity\<close> for no argument.\<close>

fun max2 :: "jsnum \<Rightarrow> jsnum \<Rightarrow> jsnum" where
  "max2 NaN _ = NaN"
| "max2 _ NaN = NaN"
| "max2 NegInfinity b = b"
| "max2 a NegInfinity = a"
| "max2 PosInfinity _ = PosInfinity"
| "max2 _ PosInfinity = PosInfinity"
| "max2 (Fin a) (Fin b) = Fin (max a b)"

fun Math_max :: "jsnum list \<Rightarrow> jsnum" where
  "Math_max [] = NegInfinity"
| "Math_max (x # xs) = max2 x (Math_max xs)"

text \<open>
  The Number value of an integer: the integer itself below \<open>2^53\<close>, and otherwise the
  nearest double, the even significand winning a tie and a magnitude that rounds to
  \<open>2^1024\<close> or more giving an infinity.  A double keeps the leading 53 bits of the
  magnitude; \<open>excess_bits\<close> counts the bits below them, on which the rounding decides.
\<close>

function excess_bits :: "int \<Rightarrow> nat" where
  "excess_bits m = (if m < 9007199254740992 then 0 else Suc (excess_bits (m div 2)))"
  by pat_completeness auto
termination
  by (relation "measure nat") auto

definition round_magnitude :: "int \<Rightarrow> int" where
  "round_magnitude m =
     (let e = excess_bits m;
          q = m div 2 ^ e;
          r = m mod 2 ^ e;
          h = 2 ^ (e - 1);
          q' = (if h < r \<or> (r = h \<and> odd q) then q + 1 else q)
      in q' * 2 ^ e)"

definition to_Number :: "int \<Rightarrow> jsnum" where
  "to_Number x =
     (if \<bar>x\<bar> < 9007199254740992 then Fin x
      else if 2 ^ 1024 \<le> round_magnitude \<bar>x\<bar> then
        (if x < 0 then NegInfinity else PosInfinity)
      else Fin ((if x < 0 then - 1 else 1) * round_magnitude \<bar>x\<bar>))"

text \<open>
  \<^verbatim>\<open>Number.parseInt(s, 10)\<close>: leading white space is dropped, then one optional sign, then
  the longest run of decimal digits is read; without a digit the result is \<^verbatim>\<open>NaN\<close>,
  and otherwise the Number value of the signed integer read.  Whatever follows the digits
  is ignored.  A \<open>char\<close> is a code unit below 256, so the white space of the model is the
  white space of JavaScript in that range.  \<^verbatim>\<open>-0\<close> is \<open>Fin 0\<close>: \<^verbatim>\<open>>\<close> and \<^verbatim>\<open>Math.max\<close>
  do not tell them apart in what follows.  The language standard lets an implementation
  replace every digit after the 20th significant one by a zero before it rounds; the
  model reads all digits, as an engine that converts the digit string exactly does.
\<close>

definition is_white_space :: "char \<Rightarrow> bool" where
  "is_white_space c = (of_char c \<in> {9, 10, 11, 12, 13, 32, 160 :: nat})"

definition is_digit :: "char \<Rightarrow> bool" where
  "is_digit c = (48 \<le> (of_char c :: nat) \<and> (of_char c :: nat) \<le> 57)"

definition digit_value :: "char \<Rightarrow> int" where
  "digit_value c = int (of_char c) - 48"

definition digits_value :: "string \<Rightarrow> int" where
  "digits_value z = foldl (\<lambda>a c. 10 * a + digit_value c) 0 z"

definition parseInt10 :: "string \<Rightarrow> jsnum" where
  "parseInt10 inputString =
     (let S = dropWhile is_white_space inputString;
          neg = (case S of c # _ \<Rightarrow> c = CHR ''-'' | [] \<Rightarrow> False);
          S' = (case S of c # r \<Rightarrow> if c = CHR ''+'' \<or> c = CHR ''-'' then r else S | [] \<Rightarrow> S);
          Z = takeWhile is_digit S'
      in if Z = [] then NaN
         else to_Number ((if neg then - 1 else 1) * digits_value Z))"

subsection \<open>The module state and \<^verbatim>\<open>getEpochs\<close>\<close>

text \<open>
  The three module-level variables of \<^verbatim>\<open>epochs.ts\<close>.  They live as long as the
  process, so \<^verbatim>\<open>getEpochs\<close> takes the state and returns the new one.
\<close>

record EpochState =
  allEpochs :: "EpochInfo list"
  latestEpoch :: jsnum
  epochCursor :: "string option"

definition initial_state :: EpochState where
  "initial_state = \<lparr>allEpochs = [], latestEpoch = Fin (- 1), epochCursor = None\<rparr>"

text \<open>The body of the \<^verbatim>\<open>forEach\<close>: push the epoch, raise the watermark.\<close>

definition push_epoch :: "EpochState \<Rightarrow> EpochInfo \<Rightarrow> EpochState" where
  "push_epoch s e =
     s\<lparr>allEpochs := allEpochs s @ [e],
       latestEpoch := Math_max [latestEpoch s, parseInt10 (epoch e)]\<rparr>"

text \<open>What one turn of the loop does with the page it has received.\<close>

definition fold_page :: "EpochState \<Rightarrow> EpochInfo page \<Rightarrow> EpochState" where
  "fold_page s pg = foldl push_epoch (s\<lparr>epochCursor := nextCursor pg\<rparr>) (page_data pg)"

text \<open>
  The \<^verbatim>\<open>while (max > latestEpoch)\<close> loop.  The upstream \<^verbatim>\<open>suiClient.getEpochs\<close> is a
  parameter: a function from the cursor to a page, or to the error it rejects with.
  Nothing bounds the number of turns (an upstream that keeps answering with pages that
  have a next page and no epoch as high as \<open>max\<close> keeps the loop running), so the loop is
  a partial function and \<open>None\<close> stands for a call that does not return.  The result
  holds the state, the cursors of the requests issued, in order, and the upstream error
  if a request was rejected (the state then keeps what the earlier turns have written).
\<close>

partial_function (option) scan ::
  "(string option \<Rightarrow> error + EpochInfo page) \<Rightarrow> jsnum \<Rightarrow> EpochState
     \<Rightarrow> (EpochState \<times> string option list \<times> error option) option" where
  "scan client mx s =
     (if js_gt mx (latestEpoch s) then
        (case client (epochCursor s) of
           Inl e \<Rightarrow> Some (s, [epochCursor s], Some e)
         | Inr pg \<Rightarrow>
             if \<not> hasNextPage pg then Some (fold_page s pg, [epochCursor s], None)
             else Option.bind (scan client mx (fold_page s pg))
                    (\<lambda>(s', cs, r). Some (s', epochCursor s # cs, r)))
      else Some (s, [], None))"

definition Epoch_not_found :: error where
  "Epoch_not_found = Error ''Epoch not found''"

text \<open>
  \<^verbatim>\<open>keys.map((key) => allEpochs.find((epoch) => epoch.epoch === String(key))
  || new Error('Epoch not found'))\<close>; a key is a string, so \<^verbatim>\<open>String(key)\<close> is the key.
\<close>

definition lookup_epoch :: "EpochState \<Rightarrow> string \<Rightarrow> error + EpochInfo" where
  "lookup_epoch s key =
     (case find (\<lambda>e. epoch e = key) (allEpochs s) of
        Some e \<Rightarrow> Inr e
      | None \<Rightarrow> Inl Epoch_not_found)"

definition getEpochs ::
  "(string option \<Rightarrow> error + EpochInfo page) \<Rightarrow> string list \<Rightarrow> EpochState
     \<Rightarrow> (EpochState \<times> rpc list \<times> (error + (error + EpochInfo) list)) option" where
  "getEpochs client keys s =
     (let mx = Math_max (map parseInt10 keys) in
      case scan client mx s of
        None \<Rightarrow> None
      | Some (s', cs, Some e) \<Rightarrow> Some (s', map GetEpochs cs, Inl e)
      | Some (s', cs, None) \<Rightarrow> Some (s', map GetEpochs cs, Inr (map (lookup_epoch s') keys)))"


section \<open>Notions used in the statements\<close>

text \<open>\<^verbatim>\<open>a <= b\<close> on the numbers above: false whenever an operand is \<^verbatim>\<open>NaN\<close>.\<close>

fun js_le :: "jsnum \<Rightarrow> jsnum \<Rightarrow> bool" where
  "js_le NaN _ = False"
| "js_le _ NaN = False"
| "js_le NegInfinity _ = True"
| "js_le _ PosInfinity = True"
| "js_le (Fin a) (Fin b) = (a \<le> b)"
| "js_le _ _ = False"

text \<open>
  The watermark \<open>b\<close> is not behind the watermark \<open>a\<close>: it is at least \<open>a\<close>, or it is
  \<^verbatim>\<open>NaN\<close> (which \<^verbatim>\<open>Math.max\<close> yields, and keeps, once the \<^verbatim>\<open>epoch\<close> string of an
  upstream record has no leading digits).
\<close>

definition raised :: "jsnum \<Rightarrow> jsnum \<Rightarrow> bool" where
  "raised a b = (b = NaN \<or> js_le a b)"

text \<open>
  One turn of the loop of \<^verbatim>\<open>getEpochs\<close> as a function of the state: the state after the
  turn (unchanged when the upstream rejects the request), and whether the turn is the last
  one whatever the watermark (rejected, or \<^verbatim>\<open>hasNextPage\<close> false).
\<close>

definition turn :: "(string option \<Rightarrow> error + EpochInfo page) \<Rightarrow> EpochState \<Rightarrow> EpochState" where
  "turn client s = (case client (epochCursor s) of Inl e \<Rightarrow> s | Inr pg \<Rightarrow> fold_page s pg)"

definition last_turn :: "(string option \<Rightarrow> error + EpochInfo page) \<Rightarrow> EpochState \<Rightarrow> bool" where
  "last_turn client s =
     (case client (epochCursor s) of Inl e \<Rightarrow> True | Inr pg \<Rightarrow> \<not> hasNextPage pg)"

text \<open>
  The runs of the loop, by recursion on the list of cursors requested: \<open>scan_trace client
  mx s cs s' r\<close> holds when the loop started in \<open>s\<close> requests exactly \<open>cs\<close> and ends in
  \<open>s'\<close> with \<open>r\<close>.  It serves the proofs about \<open>scan\<close>.
\<close>

fun scan_trace ::
  "(string option \<Rightarrow> error + EpochInfo page) \<Rightarrow> jsnum \<Rightarrow> EpochState \<Rightarrow> string option list
     \<Rightarrow> EpochState \<Rightarrow> error option \<Rightarrow> bool" where
  "scan_trace client mx s [] s' r = (\<not> js_gt mx (latestEpoch s) \<and> s' = s \<and> r = None)"
| "scan_trace client mx s (c # cs) s' r =
     (js_gt mx (latestEpoch s) \<and> c = epochCursor s \<and>
      (case client c of
         Inl e \<Rightarrow> cs = [] \<and> s' = s \<and> r = Some e
       | Inr pg \<Rightarrow>
           if hasNextPage pg then scan_trace client mx (fold_page s pg) cs s' r
           else cs = [] \<and> s' = fold_page s pg \<and> r = None))"

text \<open>The direction an upstream request asks for, if it names one.\<close>

fun requested_descending :: "rpc \<Rightarrow> bool option" where
  "requested_descending (GetCheckpoints p) = Some (descendingOrder p)"
| "requested_descending (QueryTransactionBlocks p) =
     (case qt_order p of None \<Rightarrow> None | Some ord \<Rightarrow> Some (ord = descending))"
| "requested_descending (QueryEvents p) =
     (case qe_order p of None \<Rightarrow> None | Some ord \<Rightarrow> Some (ord = descending))"
| "requested_descending _ = None"

section \<open>Sample upstream data\<close>

text \<open>
  A small upstream on which the statements below are evaluated: it knows the keys
  \<open>A\<close> and \<open>C\<close> and no other, and answers a batch in an order of its own.
\<close>

definition sample_txb :: "string \<Rightarrow> TransactionBlock" where
  "sample_txb d = \<lparr>txb_digest = d, txb_checkpoint = Some ''7'', timestampMs = None\<rparr>"

definition sample_multiGetTransactionBlocks :: "string list \<Rightarrow> error + TransactionBlock list" where
  "sample_multiGetTransactionBlocks keys =
     Inr (rev (map sample_txb (filter (\<lambda>k. k = ''A'' \<or> k = ''C'') (remdups keys))))"

definition sample_obj :: "string \<Rightarrow> SuiObjectData" where
  "sample_obj k = \<lparr>objectId = k, version = ''1'', obj_digest = ''d'' @ k\<rparr>"

definition sample_multiGetObjects :: "string list \<Rightarrow> error + SuiObjectResponse list" where
  "sample_multiGetObjects keys =
     Inr (map (\<lambda>k. \<lparr>data = (if k = ''A'' \<or> k = ''C'' then Some (sample_obj k) else None)\<rparr>) keys)"

definition sample_cp :: "string \<Rightarrow> Checkpoint" where
  "sample_cp k = \<lparr>cp_digest = k, sequenceNumber = ''1'', cp_epoch = ''0''\<rparr>"

definition sample_getCheckpoint :: "string \<Rightarrow> error + Checkpoint" where
  "sample_getCheckpoint k =
     (if k = ''A'' \<or> k = ''C'' then Inr (sample_cp k) else Inl (Error ''checkpoint not found''))"

definition sample_getCheckpoints :: "GetCheckpointsParams \<Rightarrow> error + Checkpoint page" where
  "sample_getCheckpoints p =
     Inr \<lparr>page_data = [sample_cp ''A''], nextCursor = Some ''1'', hasNextPage = False\<rparr>"

definition sample_queryTransactionBlocks ::
  "QueryTransactionBlocksParams \<Rightarrow> error + TransactionBlock page" where
  "sample_queryTransactionBlocks p =
     Inr \<lparr>page_data = [sample_txb ''A'', sample_txb ''C''], nextCursor = Some ''C'',
          hasNextPage = False\<rparr>"

text \<open>Three events; the upstream pages through them by cursor and limit.\<close>

definition sample_event :: "string \<Rightarrow> SuiEvent" where
  "sample_event n = \<lparr>ev_id = \<lparr>eventSeq = n, txDigest = ''T''\<rparr>, packageId = ''0x2'', sender = ''0x1''\<rparr>"

definition sample_events :: "SuiEvent list" where
  "sample_events = [sample_event ''0'', sample_event ''1'', sample_event ''2'']"

definition sample_queryEvents :: "QueryEventsParams \<Rightarrow> error + SuiEvent page" where
  "sample_queryEvents p =
     (let rest = (case qe_cursor p of
                    None \<Rightarrow> sample_events
                  | Some c \<Rightarrow> drop 1 (dropWhile (\<lambda>e. ev_id e \<noteq> c) sample_events));
          n = (case qe_limit p of None \<Rightarrow> length rest | Some l \<Rightarrow> nat l)
      in Inr \<lparr>page_data = take n rest, nextCursor = None, hasNextPage = (n < length rest)\<rparr>)"

text \<open>Six epochs in three pages, chained by cursors.\<close>

definition sample_epoch :: "string \<Rightarrow> EpochInfo" where
  "sample_epoch n = \<lparr>epoch = n, epochStartTimestamp = ''t'' @ n\<rparr>"

definition sample_getEpochs :: "string option \<Rightarrow> error + EpochInfo page" where
  "sample_getEpochs c =
     (if c = None then
        Inr \<lparr>page_data = [sample_epoch ''0'', sample_epoch ''1''], nextCursor = Some ''1'',
             hasNextPage = True\<rparr>
      else if c = Some ''1'' then
        Inr \<lparr>page_data = [sample_epoch ''2'', sample_epoch ''3''], nextCursor = Some ''3'',
             hasNextPage = True\<rparr>
      else if c = Some ''3'' then
        Inr \<lparr>page_data = [sample_epoch ''4'', sample_epoch ''5''], nextCursor = Some ''5'',
             hasNextPage = False\<rparr>
      else Inl (Error ''invalid cursor''))"

definition after_first_call :: EpochState where
  "after_first_call =
     \<lparr>allEpochs = [sample_epoch ''0'', sample_epoch ''1'', sample_epoch ''2'', sample_epoch ''3''],
      latestEpoch = Fin 3, epochCursor = Some ''3''\<rparr>"

definition after_second_call :: EpochState where
  "after_second_call =
     \<lparr>allEpochs = [sample_epoch ''0'', sample_epoch ''1'', sample_epoch ''2'', sample_epoch ''3'',
                   sample_epoch ''4'', sample_epoch ''5''],
      latestEpoch = Fin 5, epochCursor = Some ''5''\<rparr>"





text \<open>The arguments of a first page in forward direction.\<close>

definition forward_args :: ResolveCursorConnectionArgs where
  "forward_args = \<lparr>before = None, after = None, inverted = False, limit = 21\<rparr>"

section \<open>Lemmas about the epoch scan\<close>

lemma scan_idle: "\<not> js_gt mx (latestEpoch s) \<Longrightarrow> scan client mx s = Some (s, [], None)"
  by (subst scan.simps) simp

lemma fold_page_allEpochs: "allEpochs (fold_page s pg) = allEpochs s @ page_data pg"
proof -
  have "allEpochs (foldl push_epoch t es) = allEpochs t @ es" for t es
    by (induction es arbitrary: t) (simp_all add: push_epoch_def)
  then show ?thesis by (simp add: fold_page_def)
qed

lemma fold_page_epochCursor: "epochCursor (fold_page s pg) = nextCursor pg"
proof -
  have "epochCursor (foldl push_epoch t es) = epochCursor t" for t es
    by (induction es arbitrary: t) (simp_all add: push_epoch_def)
  then show ?thesis by (simp add: fold_page_def)
qed

lemma raised_refl: "raised a a"
  by (cases a) (simp_all add: raised_def)

lemma raised_trans: "raised a b \<Longrightarrow> raised b c \<Longrightarrow> raised a c"
  by (cases a; cases b; cases c) (simp_all add: raised_def)

lemma raised_max2: "raised a (max2 a b)"
  by (cases a; cases b) (simp_all add: raised_def)


lemma max2_NegInfinity: "max2 b NegInfinity = b"
  by (cases b) simp_all

lemma fold_page_latestEpoch: "raised (latestEpoch s) (latestEpoch (fold_page s pg))"
proof -
  have "raised (latestEpoch t) (latestEpoch (foldl push_epoch t es))" for t es
  proof (induction es arbitrary: t)
    case Nil
    show ?case by (simp add: raised_refl)
  next
    case (Cons e es)
    have "raised (latestEpoch t) (latestEpoch (push_epoch t e))"
      by (simp add: push_epoch_def max2_NegInfinity raised_max2)
    with Cons[of "push_epoch t e"] show ?case
      by (auto intro: raised_trans)
  qed
  from this[of "s\<lparr>epochCursor := nextCursor pg\<rparr>" "page_data pg"] show ?thesis by (simp add: fold_page_def)
qed


lemma scan_returns_trace:
  assumes "scan client mx s = Some y"
  shows "scan_trace client mx s (fst (snd y)) (fst y) (snd (snd y))"
proof (rule scan.raw_induct[where P = "\<lambda>client mx s y. scan_trace client mx s (fst (snd y)) (fst y) (snd (snd y))", OF _ assms], goal_cases)
  case (1 scan' client mx s y)
  show ?case
  proof (cases "js_gt mx (latestEpoch s)")
    case False
    with 1(2) show ?thesis by auto
  next
    case True
    show ?thesis
    proof (cases "client (epochCursor s)")
      case (Inl e)
      with True 1(2) show ?thesis by auto
    next
      case (Inr pg)
      show ?thesis
      proof (cases "hasNextPage pg")
        case False
        with True Inr 1(2) show ?thesis by auto
      next
        case hn: True
        with True Inr 1(2) obtain y' where y': "scan' client mx (fold_page s pg) = Some y'"
          and y: "y = (fst y', epochCursor s # fst (snd y'), snd (snd y'))"
          by (auto simp: Option.bind_eq_Some_conv split: prod.splits)
        from 1(1)[OF y'] True Inr hn y show ?thesis by simp
      qed
    qed
  qed
qed

lemma turn_Inr: "client (epochCursor s) = Inr pg \<Longrightarrow> turn client s = fold_page s pg"
  by (simp add: turn_def)

lemma turn_Inl: "client (epochCursor s) = Inl e \<Longrightarrow> turn client s = s"
  by (simp add: turn_def)

lemma trace_final_state:
  "scan_trace client mx s cs s' r \<Longrightarrow> s' = (turn client ^^ length cs) s"
proof (induction cs arbitrary: s)
  case Nil
  then show ?case by simp
next
  case (Cons c cs)
  then have c: "c = epochCursor s" and gt: "js_gt mx (latestEpoch s)" by simp_all
  show ?case
  proof (cases "client (epochCursor s)")
    case (Inl e)
    with c gt Cons.prems show ?thesis by (simp add: turn_Inl)
  next
    case (Inr pg)
    show ?thesis
    proof (cases "hasNextPage pg")
      case False
      with Inr c Cons.prems show ?thesis by (simp add: turn_Inr)
    next
      case True
      with Inr c Cons.prems have "scan_trace client mx (fold_page s pg) cs s' r" by simp
      from Cons.IH[OF this] Inr show ?thesis by (simp add: funpow_swap1 turn_Inr)
    qed
  qed
qed

lemma trace_each_fetch:
  "scan_trace client mx s cs s' r \<Longrightarrow> k < length cs \<Longrightarrow>
     cs ! k = epochCursor ((turn client ^^ k) s) \<and>
     js_gt mx (latestEpoch ((turn client ^^ k) s)) \<and>
     (Suc k < length cs \<longrightarrow> \<not> last_turn client ((turn client ^^ k) s))"
proof (induction cs arbitrary: s k)
  case Nil
  then show ?case by simp
next
  case (Cons c cs)
  then have c: "c = epochCursor s" and gt: "js_gt mx (latestEpoch s)" by simp_all
  show ?case
  proof (cases "client (epochCursor s)")
    case (Inl e)
    with c gt Cons.prems show ?thesis by simp
  next
    case (Inr pg)
    show ?thesis
    proof (cases "hasNextPage pg")
      case False
      with Inr c Cons.prems show ?thesis by simp
    next
      case True
      with Inr c Cons.prems have tr: "scan_trace client mx (fold_page s pg) cs s' r" by simp
      show ?thesis
      proof (cases k)
        case 0
        with c gt Cons.prems Inr True show ?thesis by (simp add: last_turn_def)
      next
        case (Suc j)
        with Cons.prems have "j < length cs" by simp
        from Cons.IH[OF tr this] Suc Inr show ?thesis by (simp add: funpow_swap1 turn_Inr)
      qed
    qed
  qed
qed

lemma trace_stop:
  "scan_trace client mx s cs s' r \<Longrightarrow>
     \<not> js_gt mx (latestEpoch s') \<or> (cs \<noteq> [] \<and> last_turn client ((turn client ^^ (length cs - 1)) s))"
proof (induction cs arbitrary: s)
  case Nil
  then show ?case by simp
next
  case (Cons c cs)
  then have c: "c = epochCursor s" and gt: "js_gt mx (latestEpoch s)" by simp_all
  show ?case
  proof (cases "client (epochCursor s)")
    case (Inl e)
    with c gt Cons.prems show ?thesis by (simp add: last_turn_def)
  next
    case (Inr pg)
    show ?thesis
    proof (cases "hasNextPage pg")
      case False
      with Inr c Cons.prems show ?thesis by (simp add: last_turn_def)
    next
      case True
      with Inr c Cons.prems have tr: "scan_trace client mx (fold_page s pg) cs s' r" by simp
      from Cons.IH[OF tr] show ?thesis
      proof
        assume "\<not> js_gt mx (latestEpoch s')"
        then show ?thesis by simp
      next
        assume a: "cs \<noteq> [] \<and> last_turn client ((turn client ^^ (length cs - 1)) (fold_page s pg))"
        then obtain n where n: "length cs = Suc n" by (cases cs) auto
        with a Inr show ?thesis by (simp add: funpow_swap1 turn_Inr)
      qed
    qed
  qed
qed


lemma scan_terminates:
  "\<not> js_gt mx (latestEpoch ((turn client ^^ n) s)) \<or> last_turn client ((turn client ^^ n) s)
     \<Longrightarrow> scan client mx s \<noteq> None"
proof (induction n arbitrary: s)
  case 0
  then show ?case
    by (subst scan.simps) (auto simp: last_turn_def split: sum.splits)
next
  case (Suc n)
  show ?case
  proof (cases "js_gt mx (latestEpoch s)")
    case False
    then show ?thesis by (simp add: scan_idle)
  next
    case True
    show ?thesis
    proof (cases "client (epochCursor s)")
      case (Inl e)
      with True show ?thesis by (subst scan.simps) simp
    next
      case (Inr pg)
      show ?thesis
      proof (cases "hasNextPage pg")
        case False
        with True Inr show ?thesis by (subst scan.simps) simp
      next
        case hn: True
        from Suc.prems Inr have "\<not> js_gt mx (latestEpoch ((turn client ^^ n) (fold_page s pg)))
            \<or> last_turn client ((turn client ^^ n) (fold_page s pg))"
          by (simp add: funpow_swap1 turn_Inr)
        from Suc.IH[OF this] obtain y where "scan client mx (fold_page s pg) = Some y" by auto
        with True Inr hn show ?thesis by (subst scan.simps) (simp split: prod.splits)
      qed
    qed
  qed
qed


subsection \<open>\<^verbatim>\<open>getEpochs\<close> in terms of the scan\<close>

lemma getEpochs_Some:
  assumes "getEpochs client keys s = Some (s', calls, res)"
  obtains cs r where "scan client (Math_max (map parseInt10 keys)) s = Some (s', cs, r)"
    and "calls = map GetEpochs cs"
    and "res = (case r of Some e \<Rightarrow> Inl e | None \<Rightarrow> Inr (map (lookup_epoch s') keys))"
  using assms
  by (auto simp: getEpochs_def Let_def split: option.splits prod.splits)

lemma getEpochs_idle:
  assumes "\<not> js_gt (Math_max (map parseInt10 keys)) (latestEpoch s)"
  shows "getEpochs client keys s = Some (s, [], Inr (map (lookup_epoch s) keys))"
  using assms by (simp add: getEpochs_def scan_idle)

lemma getEpochs_trace:
  assumes "getEpochs client keys s = Some (s', calls, res)"
  obtains cs r where "scan_trace client (Math_max (map parseInt10 keys)) s cs s' r"
    and "calls = map GetEpochs cs"
proof -
  from assms obtain cs r where sc: "scan client (Math_max (map parseInt10 keys)) s = Some (s', cs, r)"
    and c: "calls = map GetEpochs cs" by (rule getEpochs_Some)
  from scan_returns_trace[OF sc] have "scan_trace client (Math_max (map parseInt10 keys)) s cs s' r"
    by simp
  with c that show ?thesis by blast
qed


text \<open>
  Every single turn of the loop grows the state too, so a call that has not returned
  (or never returns) has removed nothing either.
\<close>

lemma turn_grows:
  "prefix (allEpochs s) (allEpochs (turn client s))
   \<and> raised (latestEpoch s) (latestEpoch (turn client s))"
  by (cases "client (epochCursor s)")
     (simp_all add: turn_def raised_refl fold_page_allEpochs fold_page_latestEpoch)

lemma turns_grow:
  "prefix (allEpochs s) (allEpochs ((turn client ^^ n) s))
   \<and> raised (latestEpoch s) (latestEpoch ((turn client ^^ n) s))"
proof (induction n)
  case 0
  show ?case by (simp add: raised_refl)
next
  case (Suc n)
  from Suc turn_grows[of "(turn client ^^ n) s" client] show ?case
    by (auto intro: raised_trans prefix_order.trans)
qed


subsection \<open>Looking a key up\<close>


lemma lookup_epoch_cases:
  "(\<exists>e\<in>set (allEpochs s). lookup_epoch s k = Inr e \<and> epoch e = k)
   \<or> (lookup_epoch s k = Inl Epoch_not_found \<and> k \<notin> epoch ` set (allEpochs s))"
proof (cases "find (\<lambda>e. epoch e = k) (allEpochs s)")
  case None
  then have "k \<notin> epoch ` set (allEpochs s)" by (auto simp: find_None_iff)
  with None show ?thesis by (simp add: lookup_epoch_def)
next
  case (Some e)
  then have "e \<in> set (allEpochs s) \<and> epoch e = k" by (auto simp: find_Some_iff)
  with Some show ?thesis by (auto simp: lookup_epoch_def)
qed


lemma TransactionBlock_item_cases:
  "(\<exists>t\<in>set result. TransactionBlock_item result k = Inr t \<and> txb_digest t = k)
   \<or> (TransactionBlock_item result k = Inl (TransactionBlock_not_found k)
       \<and> k \<notin> txb_digest ` set result)"
proof (cases "find (\<lambda>txb. txb_digest txb = k) result")
  case None
  then have "k \<notin> txb_digest ` set result" by (auto simp: find_None_iff)
  with None show ?thesis by (simp add: TransactionBlock_item_def)
next
  case (Some t)
  then have "t \<in> set result \<and> txb_digest t = k" by (auto simp: find_Some_iff)
  with Some show ?thesis by (auto simp: TransactionBlock_item_def)
qed

lemma Object_item_cases:
  "(\<exists>d. Some d \<in> set result \<and> Object_item result k = Inr d \<and> objectId d = k)
   \<or> (Object_item result k = Inl (Object_not_found k)
       \<and> (\<forall>d. Some d \<in> set result \<longrightarrow> objectId d \<noteq> k))"
proof (cases "find (\<lambda>obj. case obj of None \<Rightarrow> False | Some d \<Rightarrow> objectId d = k) result")
  case None
  then have "\<forall>d. Some d \<in> set result \<longrightarrow> objectId d \<noteq> k" by (force simp: find_None_iff)
  with None show ?thesis by (simp add: Object_item_def)
next
  case (Some x)
  then have x: "x \<in> set result \<and> (case x of None \<Rightarrow> False | Some d \<Rightarrow> objectId d = k)"
    by (auto simp: find_Some_iff)
  then obtain d where "x = Some d" "objectId d = k" by (cases x) auto
  with Some x show ?thesis by (auto simp: Object_item_def)
qed

lemma TransactionBlock_load_result:
  "multiGet K = Inr result \<Longrightarrow>
     snd (TransactionBlock_load multiGet K) = Inr (map (TransactionBlock_item result) K)"
  by (simp add: TransactionBlock_load_def)

lemma ObjectRef_load_result:
  "multiGet K = Inr responses \<Longrightarrow>
     snd (ObjectRef_load multiGet K) = Inr (map (Object_item (map data responses)) K)"
  by (simp add: ObjectRef_load_def)

subsection \<open>\<^verbatim>\<open>Promise.all\<close> and \<^verbatim>\<open>Math.max\<close>\<close>

lemma Promise_all_rejects: "\<exists>p\<in>set ps. isl p \<Longrightarrow> isl (Promise_all ps)"
proof (induction ps)
  case Nil
  then show ?case by simp
next
  case (Cons p ps)
  show ?case
  proof (cases p)
    case (Inl e)
    then show ?thesis by simp
  next
    case (Inr v)
    with Cons.prems have "\<exists>p\<in>set ps. isl p" by auto
    from Cons.IH[OF this] Inr show ?thesis by (auto split: sum.splits)
  qed
qed

text \<open>One key the upstream rejects makes \<^verbatim>\<open>Checkpoint.load\<close> reject the whole batch.\<close>

lemma Checkpoint_load_rejects:
  "\<exists>k\<in>set keys. isl (getCheckpoint k) \<Longrightarrow> isl (snd (Checkpoint_load getCheckpoint keys))"
proof -
  assume "\<exists>k\<in>set keys. isl (getCheckpoint k)"
  then have "\<exists>p\<in>set (map getCheckpoint keys). isl p" by auto
  from Promise_all_rejects[OF this] show ?thesis
    by (auto simp: Checkpoint_load_def split: sum.splits)
qed

lemma max2_NaN_right: "max2 x NaN = NaN"
  by (cases x) simp_all

lemma js_gt_NegInfinity: "\<not> js_gt NegInfinity x"
  by (cases x) simp_all

lemma Math_max_NaN: "NaN \<in> set xs \<Longrightarrow> Math_max xs = NaN"
  by (induction xs) (auto simp: max2_NaN_right)

subsection \<open>The sample upstream, evaluated\<close>

lemmas eval_defs = getEpochs_def sample_getEpochs_def initial_state_def parseInt10_def
  to_Number_def is_white_space_def is_digit_def digits_value_def digit_value_def fold_page_def push_epoch_def
  sample_epoch_def lookup_epoch_def after_first_call_def after_second_call_def turn_def
  last_turn_def Epoch_not_found_def

text \<open>
  The scenario of the object loader: of \<open>A\<close>, \<open>B\<close> and \<open>C\<close> the upstream has \<open>A\<close> and
  \<open>C\<close>, and the loader answers \<open>[A, NotFound B, C]\<close>.
\<close>

lemma sample_ObjectRef_load:
  "ObjectRef_load sample_multiGetObjects [''A'', ''B'', ''C''] =
     ([MultiGetObjects [''A'', ''B'', ''C'']],
      Inr [Inr (sample_obj ''A''), Inl (Object_not_found ''B''), Inr (sample_obj ''C'')])"
  by (simp add: ObjectRef_load_def Object_item_def sample_multiGetObjects_def sample_obj_def)

lemma sample_TransactionBlock_load:
  "TransactionBlock_load sample_multiGetTransactionBlocks [''C'', ''B'', ''A'', ''C''] =
     ([MultiGetTransactionBlocks [''C'', ''B'', ''A'', ''C'']],
      Inr [Inr (sample_txb ''C''), Inl (TransactionBlock_not_found ''B''), Inr (sample_txb ''A''),
           Inr (sample_txb ''C'')])"
  by (simp add: TransactionBlock_load_def TransactionBlock_item_def
      sample_multiGetTransactionBlocks_def sample_txb_def)

text \<open>
  The scenario of the epoch accumulator: asked for \<open>3\<close> and \<open>7\<close> with nothing scanned,
  it reads pages until the watermark reaches 7 or the pages end.  The sample upstream ends
  at epoch 5, so all three pages are read, \<open>3\<close> is found and \<open>7\<close> is not.
\<close>

lemma sample_getEpochs_scenario:
  "getEpochs sample_getEpochs [''3'', ''7''] initial_state =
     Some (after_second_call,
           [GetEpochs None, GetEpochs (Some ''1''), GetEpochs (Some ''3'')],
           Inr [Inr (sample_epoch ''3''), Inl Epoch_not_found])"
  by (simp add: eval_defs scan.simps)

subsection \<open>The callbacks that check \<^verbatim>\<open>before\<close>\<close>

lemma guarded_fetch_rejects_before:
  assumes "truthy (before a)"
  shows "checkpointConnection_fetch getCheckpoints a = ([], Inl backwards_error)"
    and "Epoch_checkpointsConnection_fetch getCheckpoints a = ([], Inl backwards_error)"
    and "transactionBlockConnection_fetch query a = ([], Inl backwards_error)"
    and "Epoch_transactionBlocksConnection_fetch query a = ([], Inl backwards_error)"
    and "Checkpoint_transactionsConnection_fetch checkpoint query a = ([], Inl backwards_error)"
    and "Address_transactionBlockConnection_fetch addr query a = ([], Inl backwards_error)"
    and "eventConnection_fetch queryEvents a = ([], Inl backwards_error)"
  using assms
  by (simp_all add: checkpointConnection_fetch_def Epoch_checkpointsConnection_fetch_def
      transactionBlockConnection_fetch_def Epoch_transactionBlocksConnection_fetch_def
      Checkpoint_transactionsConnection_fetch_def Address_transactionBlockConnection_fetch_def
      queryTransactionBlocks_fetch_def eventConnection_fetch_def)

text \<open>
  The test is \<^verbatim>\<open>if (before)\<close>, so an empty string as \<^verbatim>\<open>before\<close> passes it like an
  absent cursor.
\<close>

lemma empty_before_passes_the_guard:
  "checkpointConnection_fetch sample_getCheckpoints (forward_args\<lparr>before := Some []\<rparr>)
     = checkpointConnection_fetch sample_getCheckpoints forward_args"
  by (simp add: checkpointConnection_fetch_def truthy_def forward_args_def)

text \<open>\<^verbatim>\<open>Query.eventConnection\<close> asks the same whatever \<^verbatim>\<open>after\<close> and \<^verbatim>\<open>inverted\<close> are.\<close>

lemma eventConnection_fetch_ignores_after:
  "eventConnection_fetch queryEvents (a\<lparr>after := c, inverted := i\<rparr>)
     = eventConnection_fetch queryEvents a"
  by (simp add: eventConnection_fetch_def)

subsection \<open>How far a call scans\<close>

text \<open>
  The watermark is the maximum of what has been observed: after any number of turns it is
  \<^verbatim>\<open>Math.max\<close> of the watermark at the start and the parsed \<^verbatim>\<open>epoch\<close> of every record
  accumulated since.
\<close>

lemma max2_assoc: "max2 (max2 a b) c = max2 a (max2 b c)"
  by (cases a; cases b; cases c) simp_all

lemma Math_max_append: "Math_max (xs @ ys) = max2 (Math_max xs) (Math_max ys)"
proof (induction xs)
  case Nil
  show ?case by (cases "Math_max ys") simp_all
next
  case (Cons x xs)
  then show ?case by (simp add: max2_assoc)
qed

lemma fold_page_watermark:
  "latestEpoch (fold_page s pg)
     = Math_max (latestEpoch s # map (\<lambda>e. parseInt10 (epoch e)) (page_data pg))"
proof -
  have "latestEpoch (foldl push_epoch t es)
      = Math_max (latestEpoch t # map (\<lambda>e. parseInt10 (epoch e)) es)" for t es
  proof (induction es arbitrary: t)
    case Nil
    show ?case by (simp add: max2_NegInfinity)
  next
    case (Cons e es)
    have "latestEpoch (push_epoch t e) = max2 (latestEpoch t) (parseInt10 (epoch e))"
      by (simp add: push_epoch_def max2_NegInfinity)
    with Cons[of "push_epoch t e"] show ?case by (simp add: max2_assoc)
  qed
  from this[of "s\<lparr>epochCursor := nextCursor pg\<rparr>" "page_data pg"] show ?thesis
    by (simp add: fold_page_def)
qed

lemma turns_watermark:
  "latestEpoch ((turn client ^^ k) s)
     = Math_max (latestEpoch s # map (\<lambda>e. parseInt10 (epoch e))
                  (drop (length (allEpochs s)) (allEpochs ((turn client ^^ k) s))))"
proof (induction k)
  case 0
  show ?case by (simp add: max2_NegInfinity)
next
  case (Suc k)
  let ?t = "(turn client ^^ k) s"
  from turns_grow[where s = s and client = client and n = k] obtain new where new: "allEpochs ?t = allEpochs s @ new"
    by (auto simp: prefix_def)
  show ?case
  proof (cases "client (epochCursor ?t)")
    case (Inl e)
    then have "(turn client ^^ Suc k) s = ?t" by (simp add: turn_Inl)
    with Suc show ?thesis by simp
  next
    case (Inr pg)
    then have t': "(turn client ^^ Suc k) s = fold_page ?t pg" by (simp add: turn_Inr)
    have "latestEpoch (fold_page ?t pg)
        = max2 (latestEpoch ?t) (Math_max (map (\<lambda>e. parseInt10 (epoch e)) (page_data pg)))"
      by (simp add: fold_page_watermark)
    also have "\<dots> = Math_max ((latestEpoch s # map (\<lambda>e. parseInt10 (epoch e)) new)
        @ map (\<lambda>e. parseInt10 (epoch e)) (page_data pg))"
      using Suc new by (simp only: Math_max_append) simp
    finally show ?thesis
      using new by (simp only: t') (simp add: fold_page_allEpochs)
  qed
qed

text \<open>\<^verbatim>\<open>mx > Math.max(...)\<close> of at least one argument means that \<open>mx\<close> exceeds every one.\<close>

lemma js_gt_max2: "js_gt mx (max2 a b) = (js_gt mx a \<and> js_gt mx b)"
  by (cases mx; cases a; cases b) auto

lemma js_gt_Math_max:
  "js_gt mx (max2 x (Math_max xs)) = (js_gt mx x \<and> (\<forall>y\<in>set xs. js_gt mx y))"
proof (induction xs arbitrary: x)
  case Nil
  show ?case by (simp add: max2_NegInfinity)
next
  case (Cons a xs)
  from Cons[of a] show ?case by (simp add: js_gt_max2)
qed

text \<open>
  What a call that returns has done, for any upstream and any state.  With \<open>mx\<close> the
  maximum of the parsed keys and \<open>(turn client ^^ k) s\<close> the state after \<open>k\<close> turns:
  \<^item> the call returns as soon as some number of turns leads to a state whose watermark
    \<open>mx\<close> does not exceed, or to a turn that is the last (no next page, or rejected);
  \<^item> when it returns after \<open>n\<close> requests, it ends in the state after \<open>n\<close> turns; the
    \<open>k\<close>-th request carries the cursor stored in the state after \<open>k\<close> turns, was issued
    while \<open>mx\<close> exceeded the watermark, and followed only pages that had a next page;
  \<^item> at the end \<open>mx\<close> does not exceed the watermark, or the last turn was a last one;
  \<^item> any later call, with any upstream, whose maximum does not exceed the watermark
    returns at once with no request and the state unchanged.
\<close>

lemma getEpochs_fetches_as_far_as_needed:
  "((\<exists>n. \<not> js_gt (Math_max (map parseInt10 keys)) (latestEpoch ((turn client ^^ n) s))
         \<or> last_turn client ((turn client ^^ n) s))
      \<longrightarrow> getEpochs client keys s \<noteq> None)
   \<and> (getEpochs client keys s = Some (s', calls, res) \<longrightarrow>
        s' = (turn client ^^ length calls) s
        \<and> (\<forall>k<length calls.
              calls ! k = GetEpochs (epochCursor ((turn client ^^ k) s))
              \<and> js_gt (Math_max (map parseInt10 keys)) (latestEpoch ((turn client ^^ k) s))
              \<and> (Suc k < length calls \<longrightarrow> \<not> last_turn client ((turn client ^^ k) s)))
        \<and> (\<not> js_gt (Math_max (map parseInt10 keys)) (latestEpoch s')
             \<or> (calls \<noteq> [] \<and> last_turn client ((turn client ^^ (length calls - 1)) s)))
        \<and> (\<forall>client2 keys2.
              \<not> js_gt (Math_max (map parseInt10 keys2)) (latestEpoch s')
              \<longrightarrow> getEpochs client2 keys2 s' = Some (s', [], Inr (map (lookup_epoch s') keys2))))"
proof (intro conjI impI)
  assume "\<exists>n. \<not> js_gt (Math_max (map parseInt10 keys)) (latestEpoch ((turn client ^^ n) s))
         \<or> last_turn client ((turn client ^^ n) s)"
  then obtain n where "\<not> js_gt (Math_max (map parseInt10 keys)) (latestEpoch ((turn client ^^ n) s))
         \<or> last_turn client ((turn client ^^ n) s)" ..
  from scan_terminates[OF this] show "getEpochs client keys s \<noteq> None"
    by (auto simp: getEpochs_def split: option.splits)
next
  assume run: "getEpochs client keys s = Some (s', calls, res)"
  then obtain cs r where tr: "scan_trace client (Math_max (map parseInt10 keys)) s cs s' r"
    and calls: "calls = map GetEpochs cs" by (rule getEpochs_trace)
  from trace_final_state[OF tr] calls show "s' = (turn client ^^ length calls) s" by simp
  show "\<forall>k<length calls.
              calls ! k = GetEpochs (epochCursor ((turn client ^^ k) s))
              \<and> js_gt (Math_max (map parseInt10 keys)) (latestEpoch ((turn client ^^ k) s))
              \<and> (Suc k < length calls \<longrightarrow> \<not> last_turn client ((turn client ^^ k) s))"
  proof (intro allI impI)
    fix k assume "k < length calls"
    with calls have k: "k < length cs" by simp
    from trace_each_fetch[OF tr k] calls k
    show "calls ! k = GetEpochs (epochCursor ((turn client ^^ k) s))
              \<and> js_gt (Math_max (map parseInt10 keys)) (latestEpoch ((turn client ^^ k) s))
              \<and> (Suc k < length calls \<longrightarrow> \<not> last_turn client ((turn client ^^ k) s))"
      by simp
  qed
  from trace_stop[OF tr] calls
  show "\<not> js_gt (Math_max (map parseInt10 keys)) (latestEpoch s')
             \<or> (calls \<noteq> [] \<and> last_turn client ((turn client ^^ (length calls - 1)) s))"
    by simp
  show "\<forall>client2 keys2.
              \<not> js_gt (Math_max (map parseInt10 keys2)) (latestEpoch s')
              \<longrightarrow> getEpochs client2 keys2 s' = Some (s', [], Inr (map (lookup_epoch s') keys2))"
    by (simp add: getEpochs_idle)
qed


text \<open>
  The same in terms of the epochs: every request was issued while \<open>mx\<close> exceeded the
  watermark the call started with and the parsed \<^verbatim>\<open>epoch\<close> of every record accumulated
  since; and when the call ends without the upstream having ended it, \<open>mx\<close> does not
  exceed one of them.
\<close>

lemma getEpochs_requests_below_max:
  assumes "getEpochs client keys s = Some (s', calls, res)"
  shows "(\<forall>k<length calls.
            js_gt (Math_max (map parseInt10 keys)) (latestEpoch s)
            \<and> (\<forall>e\<in>set (drop (length (allEpochs s)) (allEpochs ((turn client ^^ k) s))).
                  js_gt (Math_max (map parseInt10 keys)) (parseInt10 (epoch e))))
    \<and> (\<not> js_gt (Math_max (map parseInt10 keys)) (latestEpoch s)
         \<or> (\<exists>e\<in>set (drop (length (allEpochs s)) (allEpochs s')).
               \<not> js_gt (Math_max (map parseInt10 keys)) (parseInt10 (epoch e)))
         \<or> (calls \<noteq> [] \<and> last_turn client ((turn client ^^ (length calls - 1)) s)))"
proof -
  note run = getEpochs_fetches_as_far_as_needed[of keys client s s' calls res, THEN conjunct2,
      THEN mp, OF assms]
  have each: "js_gt (Math_max (map parseInt10 keys)) (latestEpoch ((turn client ^^ k) s))"
    if "k < length calls" for k
    using run that by blast
  have final: "s' = (turn client ^^ length calls) s" using run by blast
  have stop: "\<not> js_gt (Math_max (map parseInt10 keys)) (latestEpoch s')
      \<or> (calls \<noteq> [] \<and> last_turn client ((turn client ^^ (length calls - 1)) s))"
    using run by blast
  have a: "js_gt (Math_max (map parseInt10 keys)) (latestEpoch s)
      \<and> (\<forall>e\<in>set (drop (length (allEpochs s)) (allEpochs ((turn client ^^ k) s))).
            js_gt (Math_max (map parseInt10 keys)) (parseInt10 (epoch e)))"
    if "k < length calls" for k
    using each[OF that] by (subst (asm) turns_watermark) (simp add: js_gt_Math_max)
  have b: "\<not> js_gt (Math_max (map parseInt10 keys)) (latestEpoch s)
      \<or> (\<exists>e\<in>set (drop (length (allEpochs s)) (allEpochs s')).
            \<not> js_gt (Math_max (map parseInt10 keys)) (parseInt10 (epoch e)))"
    if "\<not> js_gt (Math_max (map parseInt10 keys)) (latestEpoch s')"
    using that unfolding final by (subst (asm) turns_watermark) (auto simp: js_gt_Math_max)
  from a b stop show ?thesis by blast
qed

text \<open>
  On the sample upstream: from the initial state a request for \<open>1\<close> and \<open>3\<close> reads two
  of the three pages; a later request for \<open>2\<close> reads none.
\<close>

lemma getEpochs_fetches_as_far_as_needed_sample:
  "getEpochs sample_getEpochs [''1'', ''3''] initial_state \<noteq> None
   \<and> getEpochs sample_getEpochs [''1'', ''3''] initial_state =
       Some (after_first_call, [GetEpochs None, GetEpochs (Some ''1'')],
             Inr [Inr (sample_epoch ''1''), Inr (sample_epoch ''3'')])
   \<and> after_first_call = (turn sample_getEpochs ^^ 2) initial_state
   \<and> \<not> js_gt (Math_max (map parseInt10 [''2''])) (latestEpoch after_first_call)
   \<and> getEpochs sample_getEpochs [''2''] after_first_call =
       Some (after_first_call, [], Inr [Inr (sample_epoch ''2'')])"
proof -
  have stop: "\<exists>n. \<not> js_gt (Math_max (map parseInt10 [''1'', ''3'']))
                     (latestEpoch ((turn sample_getEpochs ^^ n) initial_state))
               \<or> last_turn sample_getEpochs ((turn sample_getEpochs ^^ n) initial_state)"
    by (rule exI[of _ 2]) (simp add: eval_defs numeral_2_eq_2)
  have run: "getEpochs sample_getEpochs [''1'', ''3''] initial_state =
       Some (after_first_call, [GetEpochs None, GetEpochs (Some ''1'')],
             Inr [Inr (sample_epoch ''1''), Inr (sample_epoch ''3'')])"
    by (simp add: eval_defs scan.simps)
  have within: "\<not> js_gt (Math_max (map parseInt10 [''2''])) (latestEpoch after_first_call)"
    by (simp add: eval_defs)
  have look: "map (lookup_epoch after_first_call) [''2''] = [Inr (sample_epoch ''2'')]"
    by (simp add: eval_defs)
  from getEpochs_fetches_as_far_as_needed[of "[''1'', ''3'']" sample_getEpochs initial_state
      after_first_call "[GetEpochs None, GetEpochs (Some ''1'')]"
      "Inr [Inr (sample_epoch ''1''), Inr (sample_epoch ''3'')]"] stop run within look
  show ?thesis by (auto simp: numeral_2_eq_2)
qed

text \<open>
  The values of \<^verbatim>\<open>Number.parseInt\<close> beyond \<open>2^53\<close> are rounded: \<open>2^53 + 1\<close> parses to
  \<open>2^53\<close>, and \<open>2^53 + 3\<close> to \<open>2^53 + 4\<close>.
\<close>

lemma parseInt10_rounds:
  "parseInt10 ''9007199254740993'' = Fin 9007199254740992
   \<and> parseInt10 ''9007199254740995'' = Fin 9007199254740996
   \<and> parseInt10 ''-9007199254740993'' = Fin (- 9007199254740992)"
  by code_simp

section \<open>The claims\<close>

subsection \<open>C1: a missing entity and its siblings in the batch\<close>

text \<open>
  Claim C1.  In every entity loader, a key the upstream does not return yields a "not
  found" error at its position, the siblings of the batch still resolve, and the load
  function does not throw because a key is absent; this is to hold for every loader, the
  \<^verbatim>\<open>Checkpoint\<close> loader included.

  The object loader does so (\<open>sample_ObjectRef_load\<close>), and so do the transaction-block
  and epoch loaders (claim C2).  \<^verbatim>\<open>Checkpoint.load\<close> does not: it awaits one
  \<^verbatim>\<open>getCheckpoint\<close> per key under \<^verbatim>\<open>Promise.all\<close> and catches nothing.  On the keys
  \<open>A\<close>, \<open>B\<close>, \<open>C\<close>, with an upstream that has \<open>A\<close> and \<open>C\<close> and rejects the request
  for \<open>B\<close>, the load function rejects as a whole: no position holds an entity.
\<close>

theorem Checkpoint_load_missing_key_rejects_batch:
  "Checkpoint_load sample_getCheckpoint [''A'', ''B'', ''C''] =
     ([GetCheckpoint ''A'', GetCheckpoint ''B'', GetCheckpoint ''C''],
      Inl (Error ''checkpoint not found''))"
  by (simp add: Checkpoint_load_def sample_getCheckpoint_def)

subsection \<open>C2: the result list answers the key list by position\<close>

text \<open>
  Claim C2.  For every key list \<open>K\<close> handed to the batch function of the
  transaction-block loader, the object loader or the epoch loader, the returned list is
  as long as \<open>K\<close>, and its element at position \<open>i\<close> is either an entity whose
  identifying field (digest, object id, epoch) equals \<open>K ! i\<close> or the "not found" error
  for \<open>K ! i\<close>; this for any order and repetition of the keys and whatever the upstream
  leaves out or reorders.

  The statement says more: the entity at position \<open>i\<close> is one the upstream returned (for
  epochs: one that has been accumulated), and the error stands there only when the upstream
  returned no entity with that identifying field.  \<open>K\<close> and the upstream response are
  arbitrary, so neither the order of the response nor repeated keys matter.
\<close>

theorem loaders_answer_by_position:
  "(multiGetTransactionBlocks K = Inr result \<longrightarrow>
      (\<exists>out. snd (TransactionBlock_load multiGetTransactionBlocks K) = Inr out
         \<and> length out = length K
         \<and> (\<forall>i<length K.
               (\<exists>t\<in>set result. out ! i = Inr t \<and> txb_digest t = K ! i)
               \<or> (out ! i = Inl (TransactionBlock_not_found (K ! i))
                   \<and> K ! i \<notin> txb_digest ` set result))))
   \<and> (multiGetObjects K = Inr responses \<longrightarrow>
      (\<exists>out. snd (ObjectRef_load multiGetObjects K) = Inr out
         \<and> length out = length K
         \<and> (\<forall>i<length K.
               (\<exists>d. Some d \<in> data ` set responses \<and> out ! i = Inr d \<and> objectId d = K ! i)
               \<or> (out ! i = Inl (Object_not_found (K ! i))
                   \<and> (\<forall>d. Some d \<in> data ` set responses \<longrightarrow> objectId d \<noteq> K ! i)))))
   \<and> (getEpochs client K s = Some (s', calls, Inr out') \<longrightarrow>
        length out' = length K
        \<and> (\<forall>i<length K.
              (\<exists>e\<in>set (allEpochs s'). out' ! i = Inr e \<and> epoch e = K ! i)
              \<or> (out' ! i = Inl Epoch_not_found \<and> K ! i \<notin> epoch ` set (allEpochs s'))))"
proof (intro conjI impI)
  assume "multiGetTransactionBlocks K = Inr result"
  then have "snd (TransactionBlock_load multiGetTransactionBlocks K)
      = Inr (map (TransactionBlock_item result) K)"
    by (rule TransactionBlock_load_result)
  then show "\<exists>out. snd (TransactionBlock_load multiGetTransactionBlocks K) = Inr out
         \<and> length out = length K
         \<and> (\<forall>i<length K.
               (\<exists>t\<in>set result. out ! i = Inr t \<and> txb_digest t = K ! i)
               \<or> (out ! i = Inl (TransactionBlock_not_found (K ! i))
                   \<and> K ! i \<notin> txb_digest ` set result))"
    using TransactionBlock_item_cases[of result] by simp
next
  assume "multiGetObjects K = Inr responses"
  then have "snd (ObjectRef_load multiGetObjects K) = Inr (map (Object_item (map data responses)) K)"
    by (rule ObjectRef_load_result)
  then show "\<exists>out. snd (ObjectRef_load multiGetObjects K) = Inr out
         \<and> length out = length K
         \<and> (\<forall>i<length K.
               (\<exists>d. Some d \<in> data ` set responses \<and> out ! i = Inr d \<and> objectId d = K ! i)
               \<or> (out ! i = Inl (Object_not_found (K ! i))
                   \<and> (\<forall>d. Some d \<in> data ` set responses \<longrightarrow> objectId d \<noteq> K ! i)))"
    using Object_item_cases[of "map data responses"] by simp
next
  assume run: "getEpochs client K s = Some (s', calls, Inr out')"
  then obtain cs r where "scan client (Math_max (map parseInt10 K)) s = Some (s', cs, r)"
    and "calls = map GetEpochs cs"
    and "Inr out' = (case r of Some e \<Rightarrow> Inl e | None \<Rightarrow> Inr (map (lookup_epoch s') K))"
    by (rule getEpochs_Some)
  then have out: "out' = map (lookup_epoch s') K" by (cases r) simp_all
  then show "length out' = length K" by simp
  from out show "\<forall>i<length K.
              (\<exists>e\<in>set (allEpochs s'). out' ! i = Inr e \<and> epoch e = K ! i)
              \<or> (out' ! i = Inl Epoch_not_found \<and> K ! i \<notin> epoch ` set (allEpochs s'))"
    using lookup_epoch_cases[of s'] by simp
qed

text \<open>
  Witness of C2: repeated keys in an order the upstream does not keep (it answers
  \<open>[C, A]\<close> to \<open>[C, B, A, C]\<close>), an object response without data, and an epoch request
  that reads one more page.
\<close>

theorem loaders_answer_by_position_witness:
  "sample_multiGetTransactionBlocks [''C'', ''B'', ''A'', ''C''] = Inr [sample_txb ''C'', sample_txb ''A'']
   \<and> sample_multiGetObjects [''A'', ''B'', ''C''] =
       Inr [\<lparr>data = Some (sample_obj ''A'')\<rparr>, \<lparr>data = None\<rparr>, \<lparr>data = Some (sample_obj ''C'')\<rparr>]
   \<and> getEpochs sample_getEpochs [''3'', ''9'', ''1''] after_first_call =
       Some (after_second_call, [GetEpochs (Some ''3'')],
             Inr [Inr (sample_epoch ''3''), Inl Epoch_not_found, Inr (sample_epoch ''1'')])
   \<and> (\<exists>out. snd (TransactionBlock_load sample_multiGetTransactionBlocks [''C'', ''B'', ''A'', ''C'']) = Inr out
         \<and> length out = 4)
   \<and> (\<exists>out. snd (ObjectRef_load sample_multiGetObjects [''A'', ''B'', ''C'']) = Inr out
         \<and> length out = 3)
   \<and> length [Inr (sample_epoch ''3''), Inl Epoch_not_found, Inr (sample_epoch ''1'')]
       = length [''3'', ''9'', ''1'']"
proof -
  have t: "sample_multiGetTransactionBlocks [''C'', ''B'', ''A'', ''C''] = Inr [sample_txb ''C'', sample_txb ''A'']"
    by (simp add: sample_multiGetTransactionBlocks_def)
  have ob: "sample_multiGetObjects [''A'', ''B'', ''C''] =
       Inr [\<lparr>data = Some (sample_obj ''A'')\<rparr>, \<lparr>data = None\<rparr>, \<lparr>data = Some (sample_obj ''C'')\<rparr>]"
    by (simp add: sample_multiGetObjects_def)
  have e: "getEpochs sample_getEpochs [''3'', ''9'', ''1''] after_first_call =
       Some (after_second_call, [GetEpochs (Some ''3'')],
             Inr [Inr (sample_epoch ''3''), Inl Epoch_not_found, Inr (sample_epoch ''1'')])"
    by (simp add: eval_defs scan.simps)
  have a: "\<exists>out. snd (TransactionBlock_load sample_multiGetTransactionBlocks [''C'', ''B'', ''A'', ''C'']) = Inr out
         \<and> length out = 4"
  proof -
    from loaders_answer_by_position[of sample_multiGetTransactionBlocks "[''C'', ''B'', ''A'', ''C'']"
      "[sample_txb ''C'', sample_txb ''A'']"] t
    obtain out where "snd (TransactionBlock_load sample_multiGetTransactionBlocks [''C'', ''B'', ''A'', ''C'']) = Inr out"
      and "length out = length [''C'', ''B'', ''A'', ''C'']"
      by blast
    then show ?thesis by simp
  qed
  have b: "\<exists>out. snd (ObjectRef_load sample_multiGetObjects [''A'', ''B'', ''C'']) = Inr out
         \<and> length out = 3"
  proof -
    from loaders_answer_by_position[of _ "[''A'', ''B'', ''C'']" _ sample_multiGetObjects
      "[\<lparr>data = Some (sample_obj ''A'')\<rparr>, \<lparr>data = None\<rparr>, \<lparr>data = Some (sample_obj ''C'')\<rparr>]"] ob
    obtain out where "snd (ObjectRef_load sample_multiGetObjects [''A'', ''B'', ''C'']) = Inr out"
      and "length out = length [''A'', ''B'', ''C'']"
      by blast
    then show ?thesis by simp
  qed
  from loaders_answer_by_position[of _ "[''3'', ''9'', ''1'']" _ _ _
      sample_getEpochs after_first_call after_second_call "[GetEpochs (Some ''3'')]"
      "[Inr (sample_epoch ''3''), Inl Epoch_not_found, Inr (sample_epoch ''1'')]"] e
  have c: "length [Inr (sample_epoch ''3''), Inl Epoch_not_found, Inr (sample_epoch ''1'')]
       = length [''3'', ''9'', ''1'']"
    by blast
  from t ob e a b c show ?thesis by blast
qed

subsection \<open>C3: a \<^verbatim>\<open>before\<close> cursor is rejected before any upstream call\<close>

text \<open>
  Claim C3.  Every connection resolver called with a \<^verbatim>\<open>before\<close> cursor returns the
  error "backwards pagination not implemented" and issues no upstream call; this is to
  hold for \<^verbatim>\<open>receivedTransactionBlockConnection\<close> too.

  The callbacks that test \<^verbatim>\<open>before\<close> do so (\<open>guarded_fetch_rejects_before\<close>).  The
  callback of \<^verbatim>\<open>Object.receivedTransactionBlockConnection\<close> takes no argument and has no
  such test: with \<^verbatim>\<open>before\<close> set to \<open>C\<close> it issues one \<^verbatim>\<open>queryTransactionBlocks\<close> and
  returns the transactions.
\<close>

theorem receivedTransactionBlockConnection_ignores_before:
  "truthy (Some ''C'')
   \<and> receivedTransactionBlockConnection_fetch (sample_obj ''A'') sample_queryTransactionBlocks
       \<lparr>before = Some ''C'', after = None, inverted = True, limit = 21\<rparr> =
     ([QueryTransactionBlocks
         \<lparr>qt_filter = Some (ToAddress ''A''), qt_limit = None, qt_cursor = None, qt_order = None\<rparr>],
      Inr [sample_txb ''A'', sample_txb ''C''])"
  by (simp add: truthy_def receivedTransactionBlockConnection_fetch_def
      sample_queryTransactionBlocks_def sample_obj_def)

subsection \<open>C4: paging forward through a connection\<close>

text \<open>
  Claim C4.  For every connection resolver, paging forward with the end cursor of the
  previous page until there is no next page yields the items of one unpaginated scan, in
  the same order; each fetch passes the \<^verbatim>\<open>after\<close> cursor and the order on to the
  upstream, for \<^verbatim>\<open>eventConnection\<close> as for \<^verbatim>\<open>checkpointConnection\<close>.

  The callback of \<^verbatim>\<open>Query.eventConnection\<close> passes neither: the two properties are
  commented out in the source.  On an upstream of three events and pages of two, the
  request that follows the cursor of the second event is the request of the first page
  and gets the first page again; the third event is never reached.
\<close>

theorem eventConnection_second_page_is_first_page:
  "Event_toCursor (sample_event ''1'') = ''1,T''
   \<and> eventConnection_fetch sample_queryEvents
       \<lparr>before = None, after = Some ''1,T'', inverted = False, limit = 2\<rparr> =
     ([QueryEvents \<lparr>qe_limit = Some 2, qe_cursor = None, qe_order = None\<rparr>],
      Inr [sample_event ''0'', sample_event ''1''])
   \<and> eventConnection_fetch sample_queryEvents
       \<lparr>before = None, after = None, inverted = False, limit = 2\<rparr> =
     ([QueryEvents \<lparr>qe_limit = Some 2, qe_cursor = None, qe_order = None\<rparr>],
      Inr [sample_event ''0'', sample_event ''1''])"
  by (simp add: Event_toCursor_def sample_event_def eventConnection_fetch_def truthy_def
      sample_queryEvents_def sample_events_def)

subsection \<open>C5: the upstream requests of a batch\<close>

text \<open>
  Claim C5.  For every loader and every batch of distinct keys, the upstream is called
  exactly once, with all the keys, and not once per key; this is to hold for the
  \<^verbatim>\<open>Checkpoint\<close> and \<^verbatim>\<open>MoveModule\<close> loaders as for the \<^verbatim>\<open>TransactionBlock\<close> loader.

  Counterexample: \<^verbatim>\<open>Checkpoint.load\<close> on the two keys \<open>A\<close> and \<open>C\<close> issues two
  requests, one per key.
\<close>

theorem Checkpoint_load_one_request_per_key:
  "fst (Checkpoint_load sample_getCheckpoint [''A'', ''C'']) = [GetCheckpoint ''A'', GetCheckpoint ''C'']
   \<and> length (fst (Checkpoint_load sample_getCheckpoint [''A'', ''C''])) \<noteq> 1"
  by (simp add: Checkpoint_load_def)

text \<open>
  Claim C5 as amended.  The transaction-block and object loaders issue exactly one
  upstream request, which carries the key list they were given; the \<^verbatim>\<open>Checkpoint\<close> and
  \<^verbatim>\<open>MoveModule\<close> loaders issue one request per key, in the order of the keys (the
  upstream calls they use take one key).
\<close>

theorem loaders_upstream_requests:
  "fst (TransactionBlock_load multiGetTransactionBlocks K) = [MultiGetTransactionBlocks K]
   \<and> fst (ObjectRef_load multiGetObjects K) = [MultiGetObjects K]
   \<and> fst (Checkpoint_load getCheckpoint K) = map GetCheckpoint K
   \<and> fst (MoveModule_load getNormalizedMoveModule K) = map MoveModule_request K
   \<and> length (fst (Checkpoint_load getCheckpoint K)) = length K
   \<and> length (fst (MoveModule_load getNormalizedMoveModule K)) = length K"
  by (simp add: TransactionBlock_load_def ObjectRef_load_def Checkpoint_load_def MoveModule_load_def)

subsection \<open>C6: the scan reads no further than the request needs, and resumes\<close>


subsection \<open>C7: the direction handed to the upstream\<close>

text \<open>
  Claim C7.  In every connection resolver a forward traversal (not inverted) asks the
  upstream for ascending order and \<^verbatim>\<open>inverted\<close> flips it, so that the direction is the
  same function of \<^verbatim>\<open>inverted\<close> in all resolvers; \<^verbatim>\<open>checkpointConnection\<close> and
  \<^verbatim>\<open>transactionBlockConnection\<close> agree.

  Counterexample: for the same arguments of a forward first page,
  \<^verbatim>\<open>checkpointConnection\<close> asks for descending order (\<^verbatim>\<open>descendingOrder: !inverted\<close>) and
  \<^verbatim>\<open>transactionBlockConnection\<close> for ascending order.
\<close>

theorem checkpoint_and_transaction_directions_differ:
  "map requested_descending (fst (checkpointConnection_fetch sample_getCheckpoints forward_args))
     = [Some True]
   \<and> map requested_descending
       (fst (transactionBlockConnection_fetch sample_queryTransactionBlocks forward_args))
     = [Some False]"
  by (simp add: forward_args_def checkpointConnection_fetch_def transactionBlockConnection_fetch_def
      queryTransactionBlocks_fetch_def truthy_def Let_def)

text \<open>
  Claim C7 as amended.  Without a \<^verbatim>\<open>before\<close> cursor, the resolvers over
  \<^verbatim>\<open>queryTransactionBlocks\<close> ask for ascending order when not inverted and for descending
  order when inverted; the resolvers over \<^verbatim>\<open>getCheckpoints\<close> ask for the opposite,
  descending when not inverted (newest checkpoint first) and ascending when inverted.  In
  both families \<^verbatim>\<open>inverted\<close> flips the direction.
\<close>

theorem direction_by_resolver_family:
  assumes "\<not> truthy (before a)"
  shows "map requested_descending (fst (checkpointConnection_fetch getCheckpoints a)) = [Some (\<not> inverted a)]
    \<and> map requested_descending (fst (Epoch_checkpointsConnection_fetch getCheckpoints a)) = [Some (\<not> inverted a)]
    \<and> map requested_descending (fst (transactionBlockConnection_fetch query a)) = [Some (inverted a)]
    \<and> map requested_descending (fst (Epoch_transactionBlocksConnection_fetch query a)) = [Some (inverted a)]
    \<and> map requested_descending (fst (Checkpoint_transactionsConnection_fetch checkpoint query a)) = [Some (inverted a)]
    \<and> map requested_descending (fst (Address_transactionBlockConnection_fetch addr query a)) = [Some (inverted a)]"
  using assms
  by (simp add: checkpointConnection_fetch_def Epoch_checkpointsConnection_fetch_def
      transactionBlockConnection_fetch_def Epoch_transactionBlocksConnection_fetch_def
      Checkpoint_transactionsConnection_fetch_def Address_transactionBlockConnection_fetch_def
      queryTransactionBlocks_fetch_def Let_def)

text \<open>Witness of the amended C7, at the arguments of a forward first page.\<close>

theorem direction_by_resolver_family_witness:
  "\<not> truthy (before forward_args)
   \<and> map requested_descending (fst (checkpointConnection_fetch sample_getCheckpoints forward_args))
       = [Some (\<not> inverted forward_args)]
   \<and> map requested_descending
       (fst (transactionBlockConnection_fetch sample_queryTransactionBlocks forward_args))
       = [Some (inverted forward_args)]"
proof -
  have h: "\<not> truthy (before forward_args)" by (simp add: truthy_def forward_args_def)
  from direction_by_resolver_family[OF h, of sample_getCheckpoints sample_queryTransactionBlocks] h
  show ?thesis by blast
qed

subsection \<open>C8: cursors\<close>

text \<open>
  Claim C8.  The cursor of an entity is a function of the entity's own fields: equal
  entities have equal cursors, whatever the page or the request; it is the one natural
  key where there is one (the sequence number of a checkpoint, the digest of a
  transaction block) and the composite \<open>eventSeq,txDigest\<close> for an event.

  The cursor functions take the entity and nothing else.  Beyond equal entities, two
  entities that agree on the key fields have the same cursor.
\<close>

theorem cursor_of_entity_fields:
  "Checkpoint_toCursor c = sequenceNumber c
   \<and> TransactionBlock_toCursor t = txb_digest t
   \<and> Event_toCursor e = eventSeq (ev_id e) @ '','' @ txDigest (ev_id e)
   \<and> (c = c' \<longrightarrow> Checkpoint_toCursor c = Checkpoint_toCursor c')
   \<and> (t = t' \<longrightarrow> TransactionBlock_toCursor t = TransactionBlock_toCursor t')
   \<and> (e = e' \<longrightarrow> Event_toCursor e = Event_toCursor e')
   \<and> (sequenceNumber c = sequenceNumber c' \<longrightarrow> Checkpoint_toCursor c = Checkpoint_toCursor c')
   \<and> (txb_digest t = txb_digest t' \<longrightarrow> TransactionBlock_toCursor t = TransactionBlock_toCursor t')
   \<and> (ev_id e = ev_id e' \<longrightarrow> Event_toCursor e = Event_toCursor e')"
  by (simp add: Checkpoint_toCursor_def TransactionBlock_toCursor_def Event_toCursor_def)

text \<open>Witness of C8: the sample entities, and an event that differs in its sender only.\<close>

theorem cursor_of_entity_fields_witness:
  "Checkpoint_toCursor (sample_cp ''A'') = ''1''
   \<and> TransactionBlock_toCursor (sample_txb ''A'') = ''A''
   \<and> Event_toCursor (sample_event ''1'') = ''1,T''
   \<and> ev_id (sample_event ''1'') = ev_id ((sample_event ''1'')\<lparr>sender := ''0x9''\<rparr>)
   \<and> Event_toCursor (sample_event ''1'') = Event_toCursor ((sample_event ''1'')\<lparr>sender := ''0x9''\<rparr>)
   \<and> Checkpoint_toCursor (sample_cp ''A'') = Checkpoint_toCursor (sample_cp ''C'')"
proof -
  note th = cursor_of_entity_fields[of "sample_cp ''A''" "sample_txb ''A''" "sample_event ''1''"
      "sample_cp ''C''" "sample_txb ''A''" "(sample_event ''1'')\<lparr>sender := ''0x9''\<rparr>"]
  have h1: "ev_id (sample_event ''1'') = ev_id ((sample_event ''1'')\<lparr>sender := ''0x9''\<rparr>)"
    by simp
  have h2: "sequenceNumber (sample_cp ''A'') = sequenceNumber (sample_cp ''C'')"
    by (simp add: sample_cp_def)
  have v1: "sequenceNumber (sample_cp ''A'') = ''1''"
    by (simp add: sample_cp_def)
  have v2: "txb_digest (sample_txb ''A'') = ''A''"
    by (simp add: sample_txb_def)
  have v3: "eventSeq (ev_id (sample_event ''1'')) @ '','' @ txDigest (ev_id (sample_event ''1'')) = ''1,T''"
    by (simp add: sample_event_def)
  from th v1 have c1: "Checkpoint_toCursor (sample_cp ''A'') = ''1''" by metis
  from th v2 have c2: "TransactionBlock_toCursor (sample_txb ''A'') = ''A''" by metis
  from th v3 have c3: "Event_toCursor (sample_event ''1'') = ''1,T''" by metis
  from th h1 have c4: "Event_toCursor (sample_event ''1'')
      = Event_toCursor ((sample_event ''1'')\<lparr>sender := ''0x9''\<rparr>)" by blast
  from th h2 have c5: "Checkpoint_toCursor (sample_cp ''A'') = Checkpoint_toCursor (sample_cp ''C'')"
    by blast
  from c1 c2 c3 h1 c4 c5 show ?thesis by blast
qed

subsection \<open>C9: the accumulator only grows\<close>



subsection \<open>C10: keys that do not parse, and no keys\<close>

text \<open>
  Claim C10.  When a key of the list does not parse as a decimal integer (the maximum
  is \<^verbatim>\<open>NaN\<close>) or the list is empty (the maximum is \<^verbatim>\<open>-Infinity\<close>), the loop does not
  run and no page is fetched; every requested epoch that is not in the accumulated list
  is then answered "not found", even if the upstream has it and the other keys are
  numbers.
\<close>

theorem unparsable_or_empty_keys_fetch_nothing:
  assumes "keys = [] \<or> (\<exists>k\<in>set keys. parseInt10 k = NaN)"
  shows "getEpochs client keys s = Some (s, [], Inr (map (lookup_epoch s) keys))
    \<and> (\<forall>k\<in>set keys. k \<notin> epoch ` set (allEpochs s) \<longrightarrow> lookup_epoch s k = Inl Epoch_not_found)"
proof -
  from assms have "Math_max (map parseInt10 keys) = NegInfinity \<or> Math_max (map parseInt10 keys) = NaN"
  proof
    assume "keys = []"
    then show ?thesis by simp
  next
    assume "\<exists>k\<in>set keys. parseInt10 k = NaN"
    then have "NaN \<in> set (map parseInt10 keys)" by force
    then show ?thesis by (simp add: Math_max_NaN)
  qed
  then have "\<not> js_gt (Math_max (map parseInt10 keys)) (latestEpoch s)"
    by (auto simp: js_gt_NegInfinity)
  then have "getEpochs client keys s = Some (s, [], Inr (map (lookup_epoch s) keys))"
    by (rule getEpochs_idle)
  moreover have "lookup_epoch s k = Inl Epoch_not_found" if "k \<notin> epoch ` set (allEpochs s)" for k
    using lookup_epoch_cases[of s k] that by auto
  ultimately show ?thesis by blast
qed

text \<open>
  Witness of C10: the keys \<open>1\<close> and \<open>x\<close> on the initial state.  The first page of the
  sample upstream holds epoch \<open>1\<close>; it is not fetched, and both keys are answered
  "not found".
\<close>

theorem unparsable_or_empty_keys_fetch_nothing_witness:
  "parseInt10 ''x'' = NaN
   \<and> sample_epoch ''1'' \<in> set (case sample_getEpochs None of Inl e \<Rightarrow> [] | Inr pg \<Rightarrow> page_data pg)
   \<and> getEpochs sample_getEpochs [''1'', ''x''] initial_state =
       Some (initial_state, [], Inr [Inl Epoch_not_found, Inl Epoch_not_found])"
proof -
  have nan: "parseInt10 ''x'' = NaN"
    by (simp add: parseInt10_def is_white_space_def is_digit_def)
  then have hyp: "[''1'', ''x''] = [] \<or> (\<exists>k\<in>set [''1'', ''x'']. parseInt10 k = NaN)" by simp
  have up: "sample_epoch ''1'' \<in> set (case sample_getEpochs None of Inl e \<Rightarrow> [] | Inr pg \<Rightarrow> page_data pg)"
    by (simp add: sample_getEpochs_def)
  have absent: "map (lookup_epoch initial_state) [''1'', ''x''] = [Inl Epoch_not_found, Inl Epoch_not_found]"
    by (simp add: lookup_epoch_def initial_state_def)
  from unparsable_or_empty_keys_fetch_nothing[OF hyp, of sample_getEpochs initial_state] nan up absent
  show ?thesis by simp
qed

end
